theory Spec2Isabelle
  imports Complex_Main "HOL-Library.Char_ord" "HOL-Library.List_Lexorder" "HOL-Library.AList"
begin

section \<open>Strings and their order\<close>

text \<open>
  A Python string is modelled as a \<^typ>\<open>string\<close>, one \<^typ>\<open>char\<close> per code point, for
  the code points below 256. Python compares strings code point by code point, a proper
  prefix being smaller; this is the lexicographic order that \<open>List_Lexorder\<close> puts on
  lists over the order of \<open>Char_ord\<close>. \<open>a > b\<close> of the source is written \<open>b < a\<close>.
\<close>

section \<open>Stage 1: the Change Detector (src/jobs/filter.py)\<close>

subsection \<open>Data\<close>

text \<open>
  Both the items of the metadata cache and the rows of the known-state log are JSON
  objects of which the stage reads the keys \<open>channel\<close> and \<open>published_at\<close>. The remaining
  keys of the object are kept in \<open>others\<close>; the row that \<open>filter_new_entries\<close> appends
  to the log has none.
\<close>

record entry =
  channel :: string
  published_at :: string
  others :: "(string \<times> string) list"

definition key_of :: "entry \<Rightarrow> string \<times> string" where
  "key_of e = (channel e, published_at e)"

subsection \<open>deduplicate_current_entries\<close>

text \<open>
  \<open>latest_entries\<close> is a Python dict: it keeps its keys in the order of their first
  insertion and an assignment to a key already present replaces the value in place.
  An association list with \<^const>\<open>AList.update\<close> behaves the same way.
\<close>

definition dedup_step :: "(string \<times> entry) list \<Rightarrow> entry \<Rightarrow> (string \<times> entry) list" where
  "dedup_step latest_entries e =
     (case map_of latest_entries (channel e) of
        None \<Rightarrow> AList.update (channel e) e latest_entries
      | Some old \<Rightarrow>
          if published_at old < published_at e
          then AList.update (channel e) e latest_entries
          else latest_entries)"

definition dedup_loop :: "entry list \<Rightarrow> (string \<times> entry) list" where
  "dedup_loop current_entries = foldl dedup_step [] current_entries"

definition deduplicate_current_entries :: "entry list \<Rightarrow> entry list" where
  "deduplicate_current_entries current_entries = map snd (dedup_loop current_entries)"

subsection \<open>filter_new_entries\<close>

text \<open>
  \<open>current_set\<close> is built once, before the loop, and is not extended while the loop
  appends to \<open>current_entries\<close>. The loop state is the pair
  \<open>(new_entries, current_entries)\<close>.
\<close>

definition filter_step ::
  "(string \<times> string) set \<Rightarrow> entry list \<times> entry list \<Rightarrow> entry \<Rightarrow> entry list \<times> entry list" where
  "filter_step current_set st item =
     (if key_of item \<notin> current_set
      then (fst st @ [item],
            snd st @ [\<lparr>channel = channel item, published_at = published_at item, others = []\<rparr>])
      else st)"

definition filter_new_entries :: "entry list \<Rightarrow> entry list \<Rightarrow> entry list \<times> entry list" where
  "filter_new_entries latest_retrieval current_entries =
     (let current_set = set (map key_of current_entries)
      in foldl (filter_step current_set) ([], current_entries) latest_retrieval)"

subsection \<open>load_latest_updates\<close>

text \<open>
  The cache directory is absent or holds named files. A file either fails to load (it
  cannot be read or is not JSON), or holds one object, or a list of objects, or some
  other JSON value, which the loop ignores. \<open>glob\<close> with the pattern \<open>*_<date>.json\<close>
  selects the names that end in \<open>_<date>.json\<close>, in the order of the directory listing.
\<close>

datatype cache_data = Load_fails | Single entry | Many "entry list" | Other_json

type_synonym cache_dir = "(string \<times> cache_data) list option"

definition glob_date :: "string \<Rightarrow> (string \<times> cache_data) list \<Rightarrow> (string \<times> cache_data) list" where
  "glob_date date_str files =
     filter (\<lambda>f. let suffix = CHR ''_'' # date_str @ ''.json''
                 in length suffix \<le> length (fst f)
                    \<and> drop (length (fst f) - length suffix) (fst f) = suffix) files"

fun load_file :: "entry list \<Rightarrow> cache_data \<Rightarrow> entry list" where
  "load_file latest_retrieval Load_fails = latest_retrieval"
| "load_file latest_retrieval (Single d) = latest_retrieval @ [d]"
| "load_file latest_retrieval (Many ds) = latest_retrieval @ ds"
| "load_file latest_retrieval Other_json = latest_retrieval"

definition load_latest_updates :: "cache_dir \<Rightarrow> string \<Rightarrow> entry list option" where
  "load_latest_updates cache today =
     (case cache of
        None \<Rightarrow> None
      | Some files \<Rightarrow>
          (let cache_files = glob_date today files
           in if cache_files = [] then None
              else Some (foldl load_file [] (map snd cache_files))))"

subsection \<open>The durable state and main\<close>

text \<open>
  The state that a run of the stage can touch: the known-state log (\<open>current.json\<close>, in
  the data directory or in the gist), absent or holding a list of rows, and the
  content-request files of the data directory, one per date. Reading the log can fail
  (no file, no gist identifier, a fault of the gist service, a document that is not
  JSON), and \<open>load_current_entries\<close> then answers the empty list; writing it can fail,
  and \<open>save_current_entries\<close> then answers \<open>False\<close> and the document stays as it was.
  Whether the two operations succeed is given by the environment of the run.
  \<open>check_stale_subscriptions\<close> reads the deduplicated rows and the clock, logs, and
  returns a count that \<open>main\<close> does not use; it is left out of the model.
\<close>

record store =
  known_log :: "entry list option"
  request_files :: "string \<Rightarrow> entry list option"

record io_env =
  read_ok :: bool
  write_ok :: bool

datatype filter_event =
    No_cached_content
  | Identified nat nat

definition load_current_entries :: "io_env \<Rightarrow> store \<Rightarrow> entry list" where
  "load_current_entries io st =
     (if read_ok io then (case known_log st of None \<Rightarrow> [] | Some es \<Rightarrow> es) else [])"

definition save_content_requests :: "entry list \<Rightarrow> string \<Rightarrow> store \<Rightarrow> store" where
  "save_content_requests new_entries today st =
     st\<lparr>request_files := (request_files st)(today := Some new_entries)\<rparr>"

definition save_current_entries :: "io_env \<Rightarrow> entry list \<Rightarrow> store \<Rightarrow> bool \<times> store" where
  "save_current_entries io updated_entries st =
     (if write_ok io then (True, st\<lparr>known_log := Some updated_entries\<rparr>) else (False, st))"

definition filter_main ::
  "io_env \<Rightarrow> cache_dir \<Rightarrow> string \<Rightarrow> store \<Rightarrow> store \<times> filter_event list" where
  "filter_main io cache today st =
     (case load_latest_updates cache today of
        None \<Rightarrow> (st, [No_cached_content])
      | Some latest_retrieval \<Rightarrow>
          if length latest_retrieval = 0 then (st, [No_cached_content])
          else
            (let current_entries = load_current_entries io st;
                 (new_entries, updated_current_entries) =
                    filter_new_entries latest_retrieval current_entries;
                 deduplicated_entries = deduplicate_current_entries updated_current_entries;
                 st1 = save_content_requests new_entries today st;
                 st2 = snd (save_current_entries io deduplicated_entries st1)
             in (st2, [Identified (length new_entries) (length latest_retrieval)])))"

section \<open>Stage 2: the Concurrent Retriever (src/jobs/fetch_content.py)\<close>

subsection \<open>Requests, connectors and their outcomes\<close>

text \<open>
  A content request is a JSON object read with \<open>.get\<close>, so each of the four keys may be
  missing. The connector classes are not part of the stage: they are parameters of the
  model. Constructing a connector and awaiting its \<open>get_latest_update_details\<close> either
  raises or returns; what is raised is told apart the way the two handlers of the source
  do (a \<open>ValueError\<close>, or any other subclass of \<open>Exception\<close>), and what is returned is
  \<open>None\<close> or a record, possibly the empty one.
\<close>

record request =
  req_type :: "string option"
  req_channel :: "string option"
  req_source_url :: "string option"
  req_uid :: "string option"

type_synonym details = "(string \<times> string) list"

datatype fault = ValueError_raised | Exception_raised

datatype outcome = Raises fault | Returns "details option"

record connectors =
  youtube_connector :: "string option \<Rightarrow> outcome"
  podcast_connector :: "string option \<Rightarrow> outcome"
  bilibili_connector :: "string option \<Rightarrow> string option \<Rightarrow> outcome"
  website_connector :: "string option \<Rightarrow> string \<Rightarrow> outcome"

datatype fetch_event =
    Fetching_content "string option" "string option"
  | Missing_source_url "string option"
  | Unsupported_content_type "string option"
  | Initialization_error "string option" "string option"
  | Error_fetching_content "string option" "string option"
  | Request_file_missing
  | Nothing_to_fetch
  | Fetched_ok "string option" "string option"
  | Fetch_failed "string option" "string option"
  | Failed_to_fetch nat
  | Fetched nat nat
  | Successfully_fetched nat nat

subsection \<open>fetch_content_by_type\<close>

text \<open>
  \<open>try_body\<close> is the \<open>if\<close>/\<open>elif\<close> chain inside \<open>try\<close>: it ends by raising or by
  returning, and may log first. \<open>not source_url\<close> holds of a missing key and of the empty
  string. \<open>fetch_content_by_type\<close> adds the line logged before \<open>try\<close> and the two
  handlers.
\<close>

definition try_body :: "connectors \<Rightarrow> request \<Rightarrow> outcome \<times> fetch_event list" where
  "try_body c content_request =
     (let content_type = req_type content_request;
          channel = req_channel content_request;
          source_url = req_source_url content_request;
          uid = req_uid content_request
      in if content_type = Some ''youtube'' then (youtube_connector c channel, [])
         else if content_type = Some ''podcast'' then (podcast_connector c channel, [])
         else if content_type = Some ''bilibili'' then (bilibili_connector c channel uid, [])
         else if content_type = Some ''website'' then
           (case source_url of
              None \<Rightarrow> (Returns None, [Missing_source_url channel])
            | Some url \<Rightarrow>
                if url = [] then (Returns None, [Missing_source_url channel])
                else (website_connector c channel url, []))
         else (Returns None, [Unsupported_content_type content_type]))"

definition fetch_content_by_type ::
  "connectors \<Rightarrow> request \<Rightarrow> details option \<times> fetch_event list" where
  "fetch_content_by_type c content_request =
     (let content_type = req_type content_request;
          channel = req_channel content_request;
          started = [Fetching_content content_type channel]
      in case try_body c content_request of
           (Returns d, evs) \<Rightarrow> (d, started @ evs)
         | (Raises ValueError_raised, evs) \<Rightarrow>
             (None, started @ evs @ [Initialization_error content_type channel])
         | (Raises Exception_raised, evs) \<Rightarrow>
             (None, started @ evs @ [Error_fetching_content content_type channel]))"

subsection \<open>main\<close>







section \<open>Stage 3: the Classifier (src/jobs/curate.py)\<close>

subsection \<open>JSON values and the Python operations on them\<close>

text \<open>
  What \<open>json.loads\<close> answers: \<open>None\<close>, a boolean, an integer (unbounded), a float, a
  string, a list, or a dict, whose keys are distinct and kept in order. A float is a
  rational or one of the three special values that \<open>json.loads\<close> accepts. A record of
  the batch is a dict.
\<close>

datatype py_error = ValueError | KeyError | TypeError | AttributeError | OverflowError | Other_error

datatype pyfloat = Finite rat | Pos_infinity | Neg_infinity | Not_a_number

datatype json =
    JNull
  | JBool bool
  | JInt int
  | JFloat pyfloat
  | JStr string
  | JArr "json list"
  | JObj "(string \<times> json) list"

type_synonym item = "(string \<times> json) list"

text \<open>
  Character classes, on the code points below 256. The class \<open>\d\<close> of \<open>re\<close> and the
  digits that \<open>int\<close> reads are the ten decimal digits; \<open>str.isdigit\<close> holds of the
  superscripts two, three and one as well; \<open>str.strip\<close> drops the characters of
  \<open>str.isspace\<close>. \<open>int\<close> skips fewer characters around the number: the four
  separators, code points 28 to 31, are white space for \<open>str.strip\<close> and not for
  \<open>int\<close>.
\<close>

definition is_decimal :: "char \<Rightarrow> bool" where
  "is_decimal c \<longleftrightarrow> 48 \<le> (of_char c :: nat) \<and> (of_char c :: nat) \<le> 57"

definition isdigit_char :: "char \<Rightarrow> bool" where
  "isdigit_char c \<longleftrightarrow>
     is_decimal c \<or> (of_char c :: nat) = 178 \<or> (of_char c :: nat) = 179 \<or> (of_char c :: nat) = 185"

definition isspace_char :: "char \<Rightarrow> bool" where
  "isspace_char c \<longleftrightarrow>
     (9 \<le> (of_char c :: nat) \<and> (of_char c :: nat) \<le> 13)
     \<or> (28 \<le> (of_char c :: nat) \<and> (of_char c :: nat) \<le> 32)
     \<or> (of_char c :: nat) = 133 \<or> (of_char c :: nat) = 160"

definition int_space_char :: "char \<Rightarrow> bool" where
  "int_space_char c \<longleftrightarrow>
     (9 \<le> (of_char c :: nat) \<and> (of_char c :: nat) \<le> 13)
     \<or> (of_char c :: nat) = 32
     \<or> (of_char c :: nat) = 133 \<or> (of_char c :: nat) = 160"

definition isdigit :: "string \<Rightarrow> bool" where
  "isdigit s \<longleftrightarrow> s \<noteq> [] \<and> list_all isdigit_char s"

definition strip :: "string \<Rightarrow> string" where
  "strip s = rev (dropWhile isspace_char (rev (dropWhile isspace_char s)))"

definition int_strip :: "string \<Rightarrow> string" where
  "int_strip s = rev (dropWhile int_space_char (rev (dropWhile int_space_char s)))"

definition digit_value :: "char \<Rightarrow> nat" where
  "digit_value c = of_char c - 48"

definition digits_to_nat :: "string \<Rightarrow> nat" where
  "digits_to_nat ds = foldl (\<lambda>a c. 10 * a + digit_value c) 0 ds"

text \<open>
  \<open>int(s)\<close> for a string, in base ten: the characters that \<open>int\<close> skips are dropped at
  both ends (\<open>int_strip\<close>), one sign may come first, and what is left is decimal digits,
  where one underscore may stand between two digits. \<open>None\<close> stands for the \<open>ValueError\<close> of every other string. The
  interpreter's limit on the number of digits is not modelled. \<open>dec_digits\<close> reads the
  digits; its flag says whether the character before was a digit.
\<close>

fun dec_digits :: "nat \<Rightarrow> bool \<Rightarrow> string \<Rightarrow> nat option" where
  "dec_digits acc after_digit [] = (if after_digit then Some acc else None)"
| "dec_digits acc after_digit (c # cs) =
     (if is_decimal c then dec_digits (10 * acc + digit_value c) True cs
      else if c = CHR ''_'' \<and> after_digit then dec_digits acc False cs
      else None)"

definition int_of_str :: "string \<Rightarrow> int option" where
  "int_of_str s =
     (case int_strip s of
        [] \<Rightarrow> None
      | c # cs \<Rightarrow>
          if c = CHR ''-'' then map_option (\<lambda>n. - int n) (dec_digits 0 False cs)
          else if c = CHR ''+'' then map_option int (dec_digits 0 False cs)
          else map_option int (dec_digits 0 False (c # cs)))"

text \<open>\<open>int(v)\<close> for a value of \<open>json.loads\<close>; a float is cut towards zero.\<close>

fun py_int :: "json \<Rightarrow> py_error + int" where
  "py_int (JInt n) = Inr n"
| "py_int (JBool b) = Inr (if b then 1 else 0)"
| "py_int (JFloat (Finite q)) = Inr (if 0 \<le> q then \<lfloor>q\<rfloor> else \<lceil>q\<rceil>)"
| "py_int (JFloat Not_a_number) = Inl ValueError"
| "py_int (JFloat Pos_infinity) = Inl OverflowError"
| "py_int (JFloat Neg_infinity) = Inl OverflowError"
| "py_int (JStr s) = (case int_of_str s of None \<Rightarrow> Inl ValueError | Some n \<Rightarrow> Inr n)"
| "py_int JNull = Inl TypeError"
| "py_int (JArr xs) = Inl TypeError"
| "py_int (JObj kvs) = Inl TypeError"

text \<open>
  \<open>v[key]\<close> with a string key: a dict answers the value or raises \<open>KeyError\<close>; a string
  and a list take integer indices only, and the other values take none.
  \<open>v.get(key, [])\<close> exists for a dict only. \<open>for item in v\<close> runs over the elements of a
  list, the keys of a dict and the characters of a string. \<open>not v\<close> holds of \<open>None\<close>,
  \<open>False\<close>, zero and the empty string, list and dict.
\<close>

fun subscript :: "json \<Rightarrow> string \<Rightarrow> py_error + json" where
  "subscript (JObj kvs) k = (case map_of kvs k of None \<Rightarrow> Inl KeyError | Some v \<Rightarrow> Inr v)"
| "subscript v k = Inl TypeError"

fun get_or_empty :: "json \<Rightarrow> string \<Rightarrow> py_error + json" where
  "get_or_empty (JObj kvs) k = (case map_of kvs k of None \<Rightarrow> Inr (JArr []) | Some v \<Rightarrow> Inr v)"
| "get_or_empty v k = Inl AttributeError"

fun iterate :: "json \<Rightarrow> py_error + json list" where
  "iterate (JArr xs) = Inr xs"
| "iterate (JObj kvs) = Inr (map (\<lambda>kv. JStr (fst kv)) kvs)"
| "iterate (JStr s) = Inr (map (\<lambda>c. JStr [c]) s)"
| "iterate v = Inl TypeError"

fun falsy :: "json \<Rightarrow> bool" where
  "falsy JNull = True"
| "falsy (JBool b) = (\<not> b)"
| "falsy (JInt n) = (n = 0)"
| "falsy (JFloat f) = (f = Finite 0)"
| "falsy (JStr s) = (s = [])"
| "falsy (JArr xs) = (xs = [])"
| "falsy (JObj kvs) = (kvs = [])"

datatype curate_event =
    Could_not_parse_duration string
  | Failed_to_parse_response
  | Response_body string
  | Index_out_of_range string int
  | Error_processing_item string py_error
  | Processed_results_missing
  | Curating nat
  | Curation_failed
  | Bucket_summary string nat int int
  | Results_saved

subsection \<open>parse_duration_to_seconds\<close>

text \<open>
  \<open>re.search(r'(\d+)u', s)\<close> for a unit letter \<open>u\<close> finds the leftmost match. A match can
  only start at a digit, and from there \<open>\d+\<close> takes the whole run of digits, which must
  be followed by \<open>u\<close>: giving digits back cannot help, since the next character is then
  a digit. So the group is the first maximal run of digits that \<open>u\<close> follows.
  \<open>search_unit\<close> scans for it, carrying the run of digits read so far.
\<close>

fun search_unit :: "char \<Rightarrow> string \<Rightarrow> string \<Rightarrow> string option" where
  "search_unit u run [] = None"
| "search_unit u run (c # cs) =
     (if is_decimal c then search_unit u (run @ [c]) cs
      else if c = u \<and> run \<noteq> [] then Some run
      else search_unit u [] cs)"

definition unit_seconds :: "char \<Rightarrow> int \<Rightarrow> string \<Rightarrow> int" where
  "unit_seconds u factor duration_str =
     (case search_unit u [] duration_str of
        None \<Rightarrow> 0
      | Some digits \<Rightarrow> int (digits_to_nat digits) * factor)"

definition parse_duration_str :: "string \<Rightarrow> (py_error + int) \<times> curate_event list" where
  "parse_duration_str duration_str =
     (if isdigit duration_str then
        (case int_of_str duration_str of
           Some n \<Rightarrow> (Inr n, [])
         | None \<Rightarrow> (Inl ValueError, []))
      else
        (let total_seconds = unit_seconds CHR ''h'' 3600 duration_str
                           + unit_seconds CHR ''m'' 60 duration_str
                           + unit_seconds CHR ''s'' 1 duration_str
         in if total_seconds = 0 \<and> strip duration_str \<noteq> [] then
              (case int_of_str duration_str of
                 Some n \<Rightarrow> (Inr n, [])
               | None \<Rightarrow> (Inr 0, [Could_not_parse_duration duration_str]))
            else (Inr total_seconds, [])))"

text \<open>
  The argument is the \<open>duration\<close> field of a record. A boolean is an instance of \<open>int\<close>
  and is returned as it is; it counts as 0 or 1 in a sum. Any value that is neither an
  integer nor a string reaches \<open>re.search\<close>, which raises \<open>TypeError\<close>.
\<close>

fun parse_duration_to_seconds :: "json \<Rightarrow> (py_error + int) \<times> curate_event list" where
  "parse_duration_to_seconds (JInt n) = (Inr n, [])"
| "parse_duration_to_seconds (JBool b) = (Inr (if b then 1 else 0), [])"
| "parse_duration_to_seconds (JStr s) = parse_duration_str s"
| "parse_duration_to_seconds v = (Inl TypeError, [])"

subsection \<open>get_llm_curation\<close>

text \<open>
  The judgment service and \<open>json.loads\<close> are parameters. Loading the configuration and
  calling the service either raises or answers a text; \<open>json_loads\<close> answers \<open>None\<close>
  where \<open>json.loads\<close> raises \<open>JSONDecodeError\<close>. The \<open>None\<close> that \<open>get_llm_curation\<close>
  returns after a parse failure is \<^const>\<open>JNull\<close>, as is the value of the JSON text \<open>null\<close>.
\<close>

record service =
  api_text_completion :: "item list \<Rightarrow> py_error + string"
  json_loads :: "string \<Rightarrow> json option"

definition get_llm_curation ::
  "service \<Rightarrow> item list \<Rightarrow> (py_error + json) \<times> curate_event list" where
  "get_llm_curation srv processed_data =
     (case api_text_completion srv processed_data of
        Inl e \<Rightarrow> (Inl e, [])
      | Inr response \<Rightarrow>
          (case json_loads srv response of
             Some curated_content \<Rightarrow> (Inr curated_content, [])
           | None \<Rightarrow> (Inr JNull, [Failed_to_parse_response, Response_body response])))"

subsection \<open>parse_curation_response\<close>

text \<open>
  \<open>process_verdict\<close> is the body of one of the three loops, which differ in the name of
  the bucket only. \<open>caught\<close> is the handler: it takes \<open>ValueError\<close> and \<open>KeyError\<close>, and
  any other exception leaves the function. The record is copied and \<open>reason\<close> is set in
  the copy: a key already there keeps its place, a new key goes last.
\<close>

record curated =
  must_see :: "item list"
  might_be_interested :: "item list"
  you_may_skip :: "item list"

definition caught :: "string \<Rightarrow> py_error \<Rightarrow> py_error + item option \<times> curate_event list" where
  "caught bucket e =
     (if e = ValueError \<or> e = KeyError then Inr (None, [Error_processing_item bucket e])
      else Inl e)"

definition process_verdict ::
  "string \<Rightarrow> item list \<Rightarrow> json \<Rightarrow> py_error + item option \<times> curate_event list" where
  "process_verdict bucket processed_data v =
     (case subscript v ''idx'' of
        Inl e \<Rightarrow> caught bucket e
      | Inr idx \<Rightarrow>
          (case py_int idx of
             Inl e \<Rightarrow> caught bucket e
           | Inr index \<Rightarrow>
               if 0 \<le> index \<and> index < int (length processed_data) then
                 (case subscript v ''reason'' of
                    Inl e \<Rightarrow> caught bucket e
                  | Inr reason \<Rightarrow>
                      Inr (Some (AList.update ''reason'' reason (processed_data ! nat index)), []))
               else Inr (None, [Index_out_of_range bucket index])))"

fun process_bucket ::
  "string \<Rightarrow> item list \<Rightarrow> json list \<Rightarrow> item list \<times> curate_event list
     \<Rightarrow> (py_error + item list) \<times> curate_event list" where
  "process_bucket bucket processed_data [] (acc, evs) = (Inr acc, evs)"
| "process_bucket bucket processed_data (v # vs) (acc, evs) =
     (case process_verdict bucket processed_data v of
        Inl e \<Rightarrow> (Inl e, evs)
      | Inr (None, ws) \<Rightarrow> process_bucket bucket processed_data vs (acc, evs @ ws)
      | Inr (Some content_item, ws) \<Rightarrow>
          process_bucket bucket processed_data vs (acc @ [content_item], evs @ ws))"

definition bucket_items ::
  "string \<Rightarrow> json \<Rightarrow> item list \<Rightarrow> curate_event list
     \<Rightarrow> (py_error + item list) \<times> curate_event list" where
  "bucket_items bucket curated_content processed_data evs =
     (case get_or_empty curated_content bucket of
        Inl e \<Rightarrow> (Inl e, evs)
      | Inr verdicts \<Rightarrow>
          (case iterate verdicts of
             Inl e \<Rightarrow> (Inl e, evs)
           | Inr vs \<Rightarrow> process_bucket bucket processed_data vs ([], evs)))"

definition parse_curation_response ::
  "json \<Rightarrow> item list \<Rightarrow> (py_error + curated option) \<times> curate_event list" where
  "parse_curation_response curated_content processed_data =
     (if falsy curated_content then (Inr None, [])
      else
        (case bucket_items ''must_see'' curated_content processed_data [] of
           (Inl e, evs) \<Rightarrow> (Inl e, evs)
         | (Inr ms, evs) \<Rightarrow>
             (case bucket_items ''might_be_interested'' curated_content processed_data evs of
                (Inl e, evs) \<Rightarrow> (Inl e, evs)
              | (Inr mb, evs) \<Rightarrow>
                  (case bucket_items ''you_may_skip'' curated_content processed_data evs of
                     (Inl e, evs) \<Rightarrow> (Inl e, evs)
                   | (Inr sk, evs) \<Rightarrow>
                       (Inr (Some \<lparr>must_see = ms, might_be_interested = mb, you_may_skip = sk\<rparr>),
                        evs)))))"

subsection \<open>curate_content and main\<close>

definition curate_content ::
  "service \<Rightarrow> item list \<Rightarrow> (py_error + curated option) \<times> curate_event list" where
  "curate_content srv processed_data =
     (case get_llm_curation srv processed_data of
        (Inl e, evs) \<Rightarrow> (Inl e, evs)
      | (Inr curated_content, evs) \<Rightarrow>
          (case parse_curation_response curated_content processed_data of
             (result, evs') \<Rightarrow> (result, evs @ evs')))"

text \<open>
  The two files of the day that the stage reads and writes. After the results are
  written, \<open>main\<close> adds up the durations of each bucket; \<open>item['duration']\<close> raises
  \<open>KeyError\<close> for a record without the key. A run ends normally or with an exception
  that leaves \<open>main\<close>; in both cases the store is as the run left it. The summary of a
  bucket is logged with its count and the hours and minutes of \<open>format_duration\<close>.
\<close>

record curate_store =
  processed_results_file :: "item list option"
  curated_results_file :: "curated option"

record run =
  final_store :: curate_store
  events :: "curate_event list"
  raised :: "py_error option"

fun duration_sum :: "item list \<Rightarrow> int \<times> curate_event list \<Rightarrow> (py_error + int) \<times> curate_event list" where
  "duration_sum [] (acc, evs) = (Inr acc, evs)"
| "duration_sum (content_item # rest) (acc, evs) =
     (case map_of content_item ''duration'' of
        None \<Rightarrow> (Inl KeyError, evs)
      | Some d \<Rightarrow>
          (case parse_duration_to_seconds d of
             (Inl e, ws) \<Rightarrow> (Inl e, evs @ ws)
           | (Inr seconds, ws) \<Rightarrow> duration_sum rest (acc + seconds, evs @ ws)))"

definition bucket_summary :: "string \<Rightarrow> item list \<Rightarrow> int \<Rightarrow> curate_event" where
  "bucket_summary bucket content_items seconds =
     Bucket_summary bucket (length content_items) (seconds div 3600) ((seconds mod 3600) div 60)"

definition curate_main :: "service \<Rightarrow> curate_store \<Rightarrow> run" where
  "curate_main srv st =
     (case processed_results_file st of
        None \<Rightarrow> \<lparr>final_store = st, events = [Processed_results_missing], raised = None\<rparr>
      | Some processed_results \<Rightarrow>
          (let started = [Curating (length processed_results)]
           in case curate_content srv processed_results of
                (Inl e, evs) \<Rightarrow> \<lparr>final_store = st, events = started @ evs, raised = Some e\<rparr>
              | (Inr None, evs) \<Rightarrow>
                  \<lparr>final_store = st, events = started @ evs @ [Curation_failed], raised = None\<rparr>
              | (Inr (Some curated_results), evs) \<Rightarrow>
                  (let st' = st\<lparr>curated_results_file := Some curated_results\<rparr>
                   in case duration_sum (must_see curated_results) (0, started @ evs) of
                        (Inl e, evs1) \<Rightarrow> \<lparr>final_store = st', events = evs1, raised = Some e\<rparr>
                      | (Inr d1, evs1) \<Rightarrow>
                   (case duration_sum (might_be_interested curated_results) (0, evs1) of
                        (Inl e, evs2) \<Rightarrow> \<lparr>final_store = st', events = evs2, raised = Some e\<rparr>
                      | (Inr d2, evs2) \<Rightarrow>
                   (case duration_sum (you_may_skip curated_results) (0, evs2) of
                        (Inl e, evs3) \<Rightarrow> \<lparr>final_store = st', events = evs3, raised = Some e\<rparr>
                      | (Inr d3, evs3) \<Rightarrow>
                          \<lparr>final_store = st',
                           events = evs3 @
                             [bucket_summary ''must_see'' (must_see curated_results) d1,
                              bucket_summary ''might_be_interested''
                                (might_be_interested curated_results) d2,
                              bucket_summary ''you_may_skip'' (you_may_skip curated_results) d3,
                              Results_saved],
                           raised = None\<rparr>)))))"

section \<open>Predicates used in the proofs\<close>

text \<open>
  \<open>kept xs v\<close>: \<open>v\<close> stands in \<open>xs\<close> at a place before which every row of its channel
  is strictly older and after which no row of its channel is newer.
\<close>

definition kept :: "entry list \<Rightarrow> entry \<Rightarrow> bool" where
  "kept xs v \<longleftrightarrow> (\<exists>us vs. xs = us @ v # vs
       \<and> (\<forall>u\<in>set us. channel u = channel v \<longrightarrow> published_at u < published_at v)
       \<and> (\<forall>w\<in>set vs. channel w = channel v \<longrightarrow> published_at w \<le> published_at v))"

section \<open>Properties of the Change Detector\<close>

lemma foldl_filter_step:
  "foldl (filter_step S) (n, c) xs =
     (n @ filter (\<lambda>i. key_of i \<notin> S) xs,
      c @ map (\<lambda>i. \<lparr>channel = channel i, published_at = published_at i, others = []\<rparr>)
                (filter (\<lambda>i. key_of i \<notin> S) xs))"
  by (induction xs arbitrary: n c) (simp_all add: filter_step_def)

lemma filter_new_entries_eq:
  "filter_new_entries lr cur =
     (filter (\<lambda>i. key_of i \<notin> key_of ` set cur) lr,
      cur @ map (\<lambda>i. \<lparr>channel = channel i, published_at = published_at i, others = []\<rparr>)
                (filter (\<lambda>i. key_of i \<notin> key_of ` set cur) lr))"
  by (simp add: filter_new_entries_def foldl_filter_step)

lemma dedup_loop_snoc: "dedup_loop (xs @ [x]) = dedup_step (dedup_loop xs) x"
  by (simp add: dedup_loop_def)

lemma dedup_step_distinct:
  "distinct (map fst L) \<Longrightarrow> distinct (map fst (dedup_step L e))"
  by (simp add: dedup_step_def distinct_update split: option.splits)

lemma dedup_loop_distinct: "distinct (map fst (dedup_loop xs))"
  by (induction xs rule: rev_induct) (simp_all add: dedup_loop_snoc dedup_step_distinct, simp add: dedup_loop_def)

lemma map_of_dedup_step:
  "map_of (dedup_step L e) =
     (case map_of L (channel e) of
        None \<Rightarrow> (map_of L)(channel e \<mapsto> e)
      | Some old \<Rightarrow> if published_at old < published_at e then (map_of L)(channel e \<mapsto> e) else map_of L)"
  by (simp add: dedup_step_def update_conv' split: option.splits)

lemma dom_dedup_loop: "dom (map_of (dedup_loop xs)) = channel ` set xs"
proof (induction xs rule: rev_induct)
  case Nil show ?case by (simp add: dedup_loop_def)
next
  case (snoc x xs)
  then show ?case
    by (auto simp: dedup_loop_snoc map_of_dedup_step split: option.splits if_splits)
qed

lemma kept_snoc_new:
  "\<forall>u\<in>set xs. channel u = channel x \<longrightarrow> published_at u < published_at x \<Longrightarrow> kept (xs @ [x]) x"
  unfolding kept_def by (rule exI[of _ xs], rule exI[of _ "[]"]) simp

lemma kept_snoc_old:
  "kept xs v \<Longrightarrow> channel x = channel v \<longrightarrow> published_at x \<le> published_at v \<Longrightarrow> kept (xs @ [x]) v"
  unfolding kept_def
  apply (elim exE conjE)
  subgoal for us vs
    by (rule exI[of _ us], rule exI[of _ "vs @ [x]"]) auto
  done

lemma kept_max:
  "kept xs v \<Longrightarrow> u \<in> set xs \<Longrightarrow> channel u = channel v \<Longrightarrow> published_at u \<le> published_at v"
  unfolding kept_def by (auto simp: less_imp_le)

lemma kept_mem: "kept xs v \<Longrightarrow> v \<in> set xs"
  unfolding kept_def by auto

lemma dedup_loop_kept:
  "map_of (dedup_loop xs) k = Some v \<Longrightarrow> channel v = k \<and> kept xs v"
proof (induction xs arbitrary: k v rule: rev_induct)
  case Nil then show ?case by (simp add: dedup_loop_def)
next
  case (snoc x xs)
  let ?L = "dedup_loop xs"
  show ?case
  proof (cases "map_of ?L (channel x)")
    case None
    then have "channel x \<notin> dom (map_of ?L)" by (simp add: domIff)
    then have nodom: "channel x \<notin> channel ` set xs"
      using dom_dedup_loop[of xs] by simp
    show ?thesis
    proof (cases "k = channel x")
      case True
      with snoc.prems None have "v = x"
        by (simp add: dedup_loop_snoc map_of_dedup_step)
      moreover have "kept (xs @ [x]) x"
      proof (rule kept_snoc_new, intro ballI impI)
        fix u assume "u \<in> set xs" "channel u = channel x"
        then have "channel x \<in> channel ` set xs" by (metis imageI)
        with nodom show "published_at u < published_at x" by simp
      qed
      ultimately show ?thesis using True by simp
    next
      case False
      with snoc.prems None have "map_of ?L k = Some v"
        by (simp add: dedup_loop_snoc map_of_dedup_step)
      then have "channel v = k \<and> kept xs v" by (rule snoc.IH)
      then show ?thesis using False by (auto intro: kept_snoc_old)
    qed
  next
    case (Some old)
    then have old: "channel old = channel x" "kept xs old"
      using snoc.IH[of "channel x" old] by simp_all
    show ?thesis
    proof (cases "published_at old < published_at x")
      case True
      show ?thesis
      proof (cases "k = channel x")
        case k: True
        with snoc.prems Some True have "v = x"
          by (simp add: dedup_loop_snoc map_of_dedup_step)
        moreover have "kept (xs @ [x]) x"
        proof (rule kept_snoc_new, intro ballI impI)
          fix u assume "u \<in> set xs" "channel u = channel x"
          then have "published_at u \<le> published_at old"
            using kept_max[OF old(2)] old(1) by simp
          then show "published_at u < published_at x" using True by simp
        qed
        ultimately show ?thesis using k by simp
      next
        case False
        with snoc.prems Some True have "map_of ?L k = Some v"
          by (simp add: dedup_loop_snoc map_of_dedup_step)
        then have "channel v = k \<and> kept xs v" by (rule snoc.IH)
        then show ?thesis using False by (auto intro: kept_snoc_old)
      qed
    next
      case False
      with snoc.prems Some have m: "map_of ?L k = Some v"
        by (simp add: dedup_loop_snoc map_of_dedup_step)
      then have kv: "channel v = k \<and> kept xs v" by (rule snoc.IH)
      show ?thesis
      proof (cases "k = channel x")
        case True
        with m Some have "v = old" by simp
        then show ?thesis using kv False by (auto intro!: kept_snoc_old)
      next
        case F: False
        then show ?thesis using kv by (auto intro: kept_snoc_old)
      qed
    qed
  qed
qed

lemma dedup_mem_iff:
  "d \<in> set (deduplicate_current_entries xs) \<longleftrightarrow> map_of (dedup_loop xs) (channel d) = Some d"
proof
  assume "d \<in> set (deduplicate_current_entries xs)"
  then obtain k where kd: "(k, d) \<in> set (dedup_loop xs)"
    by (auto simp: deduplicate_current_entries_def)
  then have m: "map_of (dedup_loop xs) k = Some d"
    using dedup_loop_distinct[of xs] by simp
  then have "channel d = k" using dedup_loop_kept by blast
  with m show "map_of (dedup_loop xs) (channel d) = Some d" by simp
next
  assume "map_of (dedup_loop xs) (channel d) = Some d"
  then have "(channel d, d) \<in> set (dedup_loop xs)" by (rule map_of_SomeD)
  then show "d \<in> set (deduplicate_current_entries xs)"
    by (force simp: deduplicate_current_entries_def)
qed

lemma dedup_kept: "d \<in> set (deduplicate_current_entries xs) \<Longrightarrow> kept xs d"
  using dedup_loop_kept dedup_mem_iff by blast

lemma dedup_channels:
  "map channel (deduplicate_current_entries xs) = map fst (dedup_loop xs)"
proof -
  have "\<forall>p\<in>set (dedup_loop xs). channel (snd p) = fst p"
  proof
    fix p assume "p \<in> set (dedup_loop xs)"
    then have "map_of (dedup_loop xs) (fst p) = Some (snd p)"
      using dedup_loop_distinct[of xs] by simp
    then show "channel (snd p) = fst p" using dedup_loop_kept by blast
  qed
  then show ?thesis by (simp add: deduplicate_current_entries_def)
qed

lemma dedup_distinct: "distinct (map channel (deduplicate_current_entries xs))"
  by (simp add: dedup_channels dedup_loop_distinct)

lemma dedup_channel_set:
  "channel ` set (deduplicate_current_entries xs) = channel ` set xs"
proof -
  have "channel ` set (deduplicate_current_entries xs) = set (map channel (deduplicate_current_entries xs))"
    by simp
  also have "\<dots> = fst ` set (dedup_loop xs)" by (simp only: dedup_channels set_map)
  also have "\<dots> = dom (map_of (dedup_loop xs))" by (simp add: dom_map_of_conv_image_fst)
  finally show ?thesis by (simp add: dom_dedup_loop)
qed

lemma dedup_length:
  "length (deduplicate_current_entries xs) = card (channel ` set xs)"
proof -
  have "length (deduplicate_current_entries xs) = length (map channel (deduplicate_current_entries xs))"
    by simp
  also have "\<dots> = card (set (map channel (deduplicate_current_entries xs)))"
    using dedup_distinct[of xs] by (simp only: distinct_card)
  also have "\<dots> = card (channel ` set xs)"
    using dedup_channel_set[of xs] by simp
  finally show ?thesis .
qed

lemma key_in_dedup:
  "(c, p) \<in> key_of ` set (deduplicate_current_entries xs) \<longleftrightarrow>
     (c, p) \<in> key_of ` set xs \<and> (\<forall>e\<in>set xs. channel e = c \<longrightarrow> published_at e \<le> p)"
proof
  assume "(c, p) \<in> key_of ` set (deduplicate_current_entries xs)"
  then obtain d where d: "d \<in> set (deduplicate_current_entries xs)" "channel d = c" "published_at d = p"
    by (auto simp: key_of_def)
  have k: "kept xs d" using d(1) by (rule dedup_kept)
  have "(c, p) \<in> key_of ` set xs"
    using kept_mem[OF k] d(2,3) by (force simp: key_of_def)
  moreover have "\<forall>e\<in>set xs. channel e = c \<longrightarrow> published_at e \<le> p"
  proof (intro ballI impI)
    fix e assume "e \<in> set xs" "channel e = c"
    then have "published_at e \<le> published_at d" using kept_max[OF k, of e] d(2) by simp
    then show "published_at e \<le> p" using d(3) by simp
  qed
  ultimately show "(c, p) \<in> key_of ` set xs \<and> (\<forall>e\<in>set xs. channel e = c \<longrightarrow> published_at e \<le> p)" ..
next
  assume a: "(c, p) \<in> key_of ` set xs \<and> (\<forall>e\<in>set xs. channel e = c \<longrightarrow> published_at e \<le> p)"
  then obtain e where e: "e \<in> set xs" "channel e = c" "published_at e = p"
    by (auto simp: key_of_def)
  then have "c \<in> channel ` set (deduplicate_current_entries xs)"
    by (simp only: dedup_channel_set) (metis imageI)
  then obtain d where d: "d \<in> set (deduplicate_current_entries xs)" "channel d = c" by auto
  have k: "kept xs d" using d(1) by (rule dedup_kept)
  have "p \<le> published_at d" using kept_max[OF k e(1)] e d by simp
  moreover have "published_at d \<le> p" using a kept_mem[OF k] d(2) by blast
  ultimately have "published_at d = p" by simp
  with d show "(c, p) \<in> key_of ` set (deduplicate_current_entries xs)"
    by (force simp: key_of_def)
qed

lemma key_of_plain:
  "key_of \<lparr>channel = channel i, published_at = published_at i, others = []\<rparr> = key_of i"
  by (simp add: key_of_def)

lemma keys_after_filter:
  "key_of ` set (snd (filter_new_entries lr cur)) = key_of ` set cur \<union> key_of ` set lr"
proof -
  let ?P = "\<lambda>i. key_of i \<notin> key_of ` set cur"
  have "key_of ` set (snd (filter_new_entries lr cur)) =
        key_of ` set cur \<union> key_of ` {i \<in> set lr. ?P i}"
    by (simp add: filter_new_entries_eq image_Un image_image key_of_plain)
  also have "\<dots> = key_of ` set cur \<union> key_of ` set lr" by blast
  finally show ?thesis .
qed

lemma rerun_new_entries:
  "fst (filter_new_entries lr (deduplicate_current_entries (snd (filter_new_entries lr cur)))) =
     filter (\<lambda>item. \<exists>e\<in>set cur \<union> set lr.
                channel e = channel item \<and> published_at item < published_at e) lr"
proof -
  let ?cur1 = "snd (filter_new_entries lr cur)"
  have keys: "\<And>c p. (\<forall>e\<in>set ?cur1. channel e = c \<longrightarrow> published_at e \<le> p)
      \<longleftrightarrow> (\<forall>e\<in>set cur \<union> set lr. channel e = c \<longrightarrow> published_at e \<le> p)"
  proof -
    fix c p
    have "(\<forall>e\<in>set ?cur1. channel e = c \<longrightarrow> published_at e \<le> p)
        \<longleftrightarrow> (\<forall>k\<in>key_of ` set ?cur1. fst k = c \<longrightarrow> snd k \<le> p)"
      by (simp add: key_of_def)
    also have "\<dots> \<longleftrightarrow> (\<forall>k\<in>key_of ` (set cur \<union> set lr). fst k = c \<longrightarrow> snd k \<le> p)"
      by (simp only: keys_after_filter image_Un)
    also have "\<dots> \<longleftrightarrow> (\<forall>e\<in>set cur \<union> set lr. channel e = c \<longrightarrow> published_at e \<le> p)"
      by (simp add: key_of_def)
    finally show "(\<forall>e\<in>set ?cur1. channel e = c \<longrightarrow> published_at e \<le> p)
      \<longleftrightarrow> (\<forall>e\<in>set cur \<union> set lr. channel e = c \<longrightarrow> published_at e \<le> p)" .
  qed
  have "\<And>item. item \<in> set lr \<Longrightarrow>
      (key_of item \<notin> key_of ` set (deduplicate_current_entries ?cur1)) \<longleftrightarrow>
      (\<exists>e\<in>set cur \<union> set lr. channel e = channel item \<and> published_at item < published_at e)"
  proof -
    fix item assume i: "item \<in> set lr"
    have "key_of item \<in> key_of ` set ?cur1"
      using i by (simp only: keys_after_filter) blast
    then have "key_of item \<in> key_of ` set (deduplicate_current_entries ?cur1) \<longleftrightarrow>
       (\<forall>e\<in>set ?cur1. channel e = channel item \<longrightarrow> published_at e \<le> published_at item)"
      using key_in_dedup[of "channel item" "published_at item" ?cur1] by (simp add: key_of_def)
    also have "\<dots> \<longleftrightarrow> (\<forall>e\<in>set cur \<union> set lr. channel e = channel item \<longrightarrow> published_at e \<le> published_at item)"
      by (rule keys)
    finally show "(key_of item \<notin> key_of ` set (deduplicate_current_entries ?cur1)) \<longleftrightarrow>
      (\<exists>e\<in>set cur \<union> set lr. channel e = channel item \<and> published_at item < published_at e)"
      by (auto simp: not_le)
  qed
  then show ?thesis
    by (simp add: filter_new_entries_eq[of lr "deduplicate_current_entries ?cur1"] cong: filter_cong)
qed

lemma filter_main_run:
  assumes "load_latest_updates cache today = Some lr" "lr \<noteq> []"
  shows "fst (filter_main io cache today st) =
     snd (save_current_entries io
            (deduplicate_current_entries (snd (filter_new_entries lr (load_current_entries io st))))
            (save_content_requests (fst (filter_new_entries lr (load_current_entries io st))) today st))"
  using assms by (simp add: filter_main_def Let_def split: prod.splits)

lemma filter_main_short_circuit:
  "load_latest_updates cache today = None \<or> load_latest_updates cache today = Some []
   \<Longrightarrow> filter_main io cache today st = (st, [No_cached_content])"
  by (auto simp: filter_main_def)

lemma first_run_log:
  assumes "load_latest_updates cache today = Some lr" "lr \<noteq> []" "read_ok io" "write_ok io"
  shows "load_current_entries io (fst (filter_main io cache today st)) =
           deduplicate_current_entries (snd (filter_new_entries lr (load_current_entries io st)))"
  using assms(3,4)
  by (simp add: filter_main_run[OF assms(1,2)] save_current_entries_def load_current_entries_def)

lemma run_requests:
  assumes "load_latest_updates cache today = Some lr" "lr \<noteq> []"
  shows "request_files (fst (filter_main io cache today st)) today =
           Some (fst (filter_new_entries lr (load_current_entries io st)))"
  by (simp add: filter_main_run[OF assms] save_current_entries_def save_content_requests_def)

text \<open>
  C1, as amended. When a non-empty cache is processed twice and the second run reads the
  log that the first run saved, the content requests of the second run are exactly the
  cache items that are older than some row of the initial log or some item of the cache
  on the same channel. So the second run yields zero new entries if and only if every
  cache item carries the greatest \<open>published_at\<close> recorded for its channel.
\<close>

theorem rerun_requests_are_the_outdated_items:
  assumes "load_latest_updates cache today = Some lr" and "lr \<noteq> []"
    and "read_ok io" and "write_ok io"
  shows "request_files (fst (filter_main io cache today (fst (filter_main io cache today st)))) today
           = Some (filter (\<lambda>item. \<exists>e\<in>set (load_current_entries io st) \<union> set lr.
                             channel e = channel item \<and> published_at item < published_at e) lr)
       \<and> (request_files (fst (filter_main io cache today (fst (filter_main io cache today st)))) today
              = Some []
            \<longleftrightarrow> (\<forall>item\<in>set lr. \<forall>e\<in>set (load_current_entries io st) \<union> set lr.
                   channel e = channel item \<longrightarrow> published_at e \<le> published_at item))"
proof -
  let ?st1 = "fst (filter_main io cache today st)"
  let ?cur = "load_current_entries io st"
  let ?out = "filter (\<lambda>item. \<exists>e\<in>set ?cur \<union> set lr.
                  channel e = channel item \<and> published_at item < published_at e) lr"
  have "request_files (fst (filter_main io cache today ?st1)) today =
          Some (fst (filter_new_entries lr (load_current_entries io ?st1)))"
    using assms(1,2) by (rule run_requests)
  also have "load_current_entries io ?st1 =
          deduplicate_current_entries (snd (filter_new_entries lr ?cur))"
    using assms by (rule first_run_log)
  finally have eq: "request_files (fst (filter_main io cache today ?st1)) today = Some ?out"
    by (simp only: rerun_new_entries)
  have "?out = [] \<longleftrightarrow> (\<forall>item\<in>set lr. \<forall>e\<in>set ?cur \<union> set lr.
                   channel e = channel item \<longrightarrow> published_at e \<le> published_at item)"
    unfolding filter_empty_conv by (auto simp: not_less)
  with eq show ?thesis by simp
qed

theorem rerun_requests_witness:
  "load_latest_updates (Some [(''youtube_2024-05-03.json'',
       Single \<lparr>channel = ''a'', published_at = ''2024-05-03'', others = [(''type'', ''youtube'')]\<rparr>)])
     ''2024-05-03''
     = Some [\<lparr>channel = ''a'', published_at = ''2024-05-03'', others = [(''type'', ''youtube'')]\<rparr>]
   \<and> request_files
       (fst (filter_main \<lparr>read_ok = True, write_ok = True\<rparr>
          (Some [(''youtube_2024-05-03.json'',
             Single \<lparr>channel = ''a'', published_at = ''2024-05-03'', others = [(''type'', ''youtube'')]\<rparr>)])
          ''2024-05-03''
          (fst (filter_main \<lparr>read_ok = True, write_ok = True\<rparr>
             (Some [(''youtube_2024-05-03.json'',
                Single \<lparr>channel = ''a'', published_at = ''2024-05-03'', others = [(''type'', ''youtube'')]\<rparr>)])
             ''2024-05-03''
             \<lparr>known_log = Some [\<lparr>channel = ''a'', published_at = ''2024-05-02'', others = []\<rparr>],
              request_files = (\<lambda>d. None)\<rparr>))))
       ''2024-05-03''
     = Some []"
proof -
  let ?item = "\<lparr>channel = ''a'', published_at = ''2024-05-03'', others = [(''type'', ''youtube'')]\<rparr>"
  let ?cache = "Some [(''youtube_2024-05-03.json'', Single ?item)]"
  let ?io = "\<lparr>read_ok = True, write_ok = True\<rparr>"
  let ?st = "\<lparr>known_log = Some [\<lparr>channel = ''a'', published_at = ''2024-05-02'', others = []\<rparr>],
              request_files = (\<lambda>d. None)\<rparr>"
  have h1: "load_latest_updates ?cache ''2024-05-03'' = Some [?item]"
    by (simp add: load_latest_updates_def glob_date_def)
  have h2: "[?item] \<noteq> []" by simp
  have h3: "read_ok ?io" by simp
  have h4: "write_ok ?io" by simp
  show ?thesis
    using h1 rerun_requests_are_the_outdated_items[OF h1 h2 h3 h4, of ?st]
    by (simp add: load_current_entries_def)
qed

theorem rerun_not_idempotent_counterexample:
  "request_files
     (fst (filter_main \<lparr>read_ok = True, write_ok = True\<rparr>
        (Some [(''youtube_2024-05-03.json'',
                Single \<lparr>channel = ''a'', published_at = ''2024-05-01'', others = [(''type'', ''youtube'')]\<rparr>)])
        ''2024-05-03''
        (fst (filter_main \<lparr>read_ok = True, write_ok = True\<rparr>
           (Some [(''youtube_2024-05-03.json'',
                   Single \<lparr>channel = ''a'', published_at = ''2024-05-01'', others = [(''type'', ''youtube'')]\<rparr>)])
           ''2024-05-03''
           \<lparr>known_log = Some [\<lparr>channel = ''a'', published_at = ''2024-05-02'', others = []\<rparr>],
            request_files = (\<lambda>d. None)\<rparr>))))
     ''2024-05-03''
   = Some [\<lparr>channel = ''a'', published_at = ''2024-05-01'', others = [(''type'', ''youtube'')]\<rparr>]"
  by (simp add: filter_main_def load_latest_updates_def glob_date_def load_current_entries_def
       filter_new_entries_def filter_step_def key_of_def deduplicate_current_entries_def
       dedup_loop_def dedup_step_def save_content_requests_def save_current_entries_def)

text \<open>
  C3. Deduplication returns as many rows as the log has distinct channels, one for each
  channel, each a row of the log whose \<open>published_at\<close> is the greatest among the rows of
  its channel in the order of strings.
\<close>

theorem dedup_one_latest_row_per_channel:
  "length (deduplicate_current_entries es) = card (channel ` set es)
   \<and> distinct (map channel (deduplicate_current_entries es))
   \<and> channel ` set (deduplicate_current_entries es) = channel ` set es
   \<and> (\<forall>d\<in>set (deduplicate_current_entries es).
        d \<in> set es
        \<and> (\<forall>e\<in>set es. channel e = channel d \<longrightarrow> published_at e \<le> published_at d))"
proof -
  have "\<forall>d\<in>set (deduplicate_current_entries es).
        d \<in> set es
        \<and> (\<forall>e\<in>set es. channel e = channel d \<longrightarrow> published_at e \<le> published_at d)"
  proof (intro ballI conjI impI)
    fix d assume d: "d \<in> set (deduplicate_current_entries es)"
    then show "d \<in> set es" by (rule kept_mem[OF dedup_kept])
    fix e assume "e \<in> set es" "channel e = channel d"
    then show "published_at e \<le> published_at d"
      using kept_max[OF dedup_kept[OF d]] by simp
  qed
  then show ?thesis
    by (rule conjI[OF dedup_length conjI[OF dedup_distinct conjI[OF dedup_channel_set]]])
qed

theorem dedup_one_latest_row_per_channel_witness:
  "deduplicate_current_entries
     [\<lparr>channel = ''a'', published_at = ''2024-05-01'', others = []\<rparr>,
      \<lparr>channel = ''b'', published_at = ''2024-04-30'', others = []\<rparr>,
      \<lparr>channel = ''a'', published_at = ''2024-05-02'', others = []\<rparr>]
   = [\<lparr>channel = ''a'', published_at = ''2024-05-02'', others = []\<rparr>,
      \<lparr>channel = ''b'', published_at = ''2024-04-30'', others = []\<rparr>]
   \<and> card (channel ` set
       [\<lparr>channel = ''a'', published_at = ''2024-05-01'', others = []\<rparr>,
        \<lparr>channel = ''b'', published_at = ''2024-04-30'', others = []\<rparr>,
        \<lparr>channel = ''a'', published_at = ''2024-05-02'', others = []\<rparr>]) = 2"
proof -
  let ?es = "[\<lparr>channel = ''a'', published_at = ''2024-05-01'', others = []\<rparr>,
      \<lparr>channel = ''b'', published_at = ''2024-04-30'', others = []\<rparr>,
      \<lparr>channel = ''a'', published_at = ''2024-05-02'', others = []\<rparr>]"
  have v: "deduplicate_current_entries ?es
     = [\<lparr>channel = ''a'', published_at = ''2024-05-02'', others = []\<rparr>,
        \<lparr>channel = ''b'', published_at = ''2024-04-30'', others = []\<rparr>]"
    by (simp add: deduplicate_current_entries_def dedup_loop_def dedup_step_def)
  from dedup_one_latest_row_per_channel[of ?es]
  have "length (deduplicate_current_entries ?es) = card (channel ` set ?es)" by (rule conjunct1)
  then have "card (channel ` set ?es) = length (deduplicate_current_entries ?es)" by (rule sym)
  also have "\<dots> = 2" by (simp only: v) simp
  finally have c: "card (channel ` set ?es) = 2" .
  from v c show ?thesis by (rule conjI)
qed

text \<open>
  C4, as amended. The comparison is strict, so a later row replaces the row kept for its
  channel only when its \<open>published_at\<close> is strictly greater: of several rows of a
  channel with the same greatest \<open>published_at\<close>, the earliest is kept. Every row of
  the channel before the kept one is strictly older, every row after it is not newer.
\<close>

theorem dedup_keeps_earliest_of_the_latest:
  "d \<in> set (deduplicate_current_entries es) \<Longrightarrow>
     \<exists>us vs. es = us @ d # vs
       \<and> (\<forall>u\<in>set us. channel u = channel d \<longrightarrow> published_at u < published_at d)
       \<and> (\<forall>w\<in>set vs. channel w = channel d \<longrightarrow> published_at w \<le> published_at d)"
  using dedup_kept[of d es] by (simp add: kept_def)

theorem dedup_keeps_earliest_witness:
  "\<lparr>channel = ''a'', published_at = ''2024-05-01'', others = [(''title'', ''first'')]\<rparr>
     \<in> set (deduplicate_current_entries
         [\<lparr>channel = ''a'', published_at = ''2024-05-01'', others = [(''title'', ''first'')]\<rparr>,
          \<lparr>channel = ''a'', published_at = ''2024-05-01'', others = [(''title'', ''second'')]\<rparr>])
   \<and> (\<exists>us vs.
         [\<lparr>channel = ''a'', published_at = ''2024-05-01'', others = [(''title'', ''first'')]\<rparr>,
          \<lparr>channel = ''a'', published_at = ''2024-05-01'', others = [(''title'', ''second'')]\<rparr>]
         = us @ \<lparr>channel = ''a'', published_at = ''2024-05-01'', others = [(''title'', ''first'')]\<rparr> # vs
       \<and> (\<forall>u\<in>set us. channel u = ''a'' \<longrightarrow> published_at u < ''2024-05-01'')
       \<and> (\<forall>w\<in>set vs. channel w = ''a'' \<longrightarrow> published_at w \<le> ''2024-05-01''))"
proof -
  let ?e1 = "\<lparr>channel = ''a'', published_at = ''2024-05-01'', others = [(''title'', ''first'')]\<rparr>"
  let ?e2 = "\<lparr>channel = ''a'', published_at = ''2024-05-01'', others = [(''title'', ''second'')]\<rparr>"
  have h: "?e1 \<in> set (deduplicate_current_entries [?e1, ?e2])"
    by (simp add: deduplicate_current_entries_def dedup_loop_def dedup_step_def)
  from dedup_keeps_earliest_of_the_latest[OF h] h show ?thesis by simp
qed

theorem dedup_tie_later_loses_counterexample:
  "deduplicate_current_entries
     [\<lparr>channel = ''a'', published_at = ''2024-05-01'', others = [(''title'', ''first'')]\<rparr>,
      \<lparr>channel = ''a'', published_at = ''2024-05-01'', others = [(''title'', ''second'')]\<rparr>]
   = [\<lparr>channel = ''a'', published_at = ''2024-05-01'', others = [(''title'', ''first'')]\<rparr>]"
  by (simp add: deduplicate_current_entries_def dedup_loop_def dedup_step_def)

text \<open>
  C5, as amended. When the cache of the day is missing or empty, the run logs that
  there is nothing to process and returns before it loads the log or writes anything:
  the known-state log is unchanged, and no content-request file is written, so a day
  without such a file still has none.
\<close>

theorem empty_cache_touches_nothing:
  "load_latest_updates cache today = None \<or> load_latest_updates cache today = Some []
   \<Longrightarrow> fst (filter_main io cache today st) = st
       \<and> known_log (fst (filter_main io cache today st)) = known_log st
       \<and> request_files (fst (filter_main io cache today st)) today = request_files st today
       \<and> snd (filter_main io cache today st) = [No_cached_content]"
  by (simp add: filter_main_short_circuit)

theorem empty_cache_touches_nothing_witness:
  "load_latest_updates (Some [(''youtube_2024-05-03.json'', Many [])]) ''2024-05-03'' = Some []
   \<and> known_log (fst (filter_main \<lparr>read_ok = True, write_ok = True\<rparr>
        (Some [(''youtube_2024-05-03.json'', Many [])]) ''2024-05-03''
        \<lparr>known_log = Some [\<lparr>channel = ''a'', published_at = ''2024-05-02'', others = []\<rparr>],
         request_files = (\<lambda>d. None)\<rparr>))
     = Some [\<lparr>channel = ''a'', published_at = ''2024-05-02'', others = []\<rparr>]"
proof -
  have h: "load_latest_updates (Some [(''youtube_2024-05-03.json'', Many [])]) ''2024-05-03'' = Some []"
    by (simp add: load_latest_updates_def glob_date_def)
  then have "load_latest_updates (Some [(''youtube_2024-05-03.json'', Many [])]) ''2024-05-03'' = None
     \<or> load_latest_updates (Some [(''youtube_2024-05-03.json'', Many [])]) ''2024-05-03'' = Some []" ..
  from empty_cache_touches_nothing[OF this] h show ?thesis by simp
qed

theorem empty_cache_writes_no_request_file_counterexample:
  "request_files (fst (filter_main \<lparr>read_ok = True, write_ok = True\<rparr>
        (Some [(''youtube_2024-05-03.json'', Many [])]) ''2024-05-03''
        \<lparr>known_log = Some [\<lparr>channel = ''a'', published_at = ''2024-05-02'', others = []\<rparr>],
         request_files = (\<lambda>d. None)\<rparr>)) ''2024-05-03''
   = None"
  by (simp add: filter_main_def load_latest_updates_def glob_date_def)

section \<open>Properties of the Concurrent Retriever\<close>




















text \<open>
  C8, as amended. The connector is chosen by the names that the stage compares the type
  with: \<open>youtube\<close>, \<open>podcast\<close>, \<open>bilibili\<close> and \<open>website\<close>. A request of one of the first
  three types reaches the connector of that type, and a website request does when its
  \<open>source_url\<close> is not empty. Every other type, \<open>video\<close> and \<open>short_video\<close> among them,
  resolves to the unsupported-content-type failure.
\<close>

theorem dispatch_on_platform_names:
  "(req_type r = Some ''youtube'' \<longrightarrow> try_body c r = (youtube_connector c (req_channel r), []))
   \<and> (req_type r = Some ''podcast'' \<longrightarrow> try_body c r = (podcast_connector c (req_channel r), []))
   \<and> (req_type r = Some ''bilibili'' \<longrightarrow>
        try_body c r = (bilibili_connector c (req_channel r) (req_uid r), []))
   \<and> (req_type r = Some ''website'' \<and> req_source_url r = Some url \<and> url \<noteq> [] \<longrightarrow>
        try_body c r = (website_connector c (req_channel r) url, []))
   \<and> (req_type r \<notin> {Some ''youtube'', Some ''podcast'', Some ''bilibili'', Some ''website''} \<longrightarrow>
        fetch_content_by_type c r =
          (None, [Fetching_content (req_type r) (req_channel r),
                  Unsupported_content_type (req_type r)]))"
  by (simp add: try_body_def fetch_content_by_type_def Let_def)

theorem dispatch_on_platform_names_witness:
  "try_body \<lparr>youtube_connector = (\<lambda>ch. if ch = Some ''broken'' then Raises Exception_raised
                                  else if ch = Some ''empty'' then Returns (Some [])
                                  else Returns (Some [(''title'', ''t'')])),
          podcast_connector = (\<lambda>ch. Returns (Some [(''title'', ''p'')])),
          bilibili_connector = (\<lambda>ch u. Returns (Some [(''title'', ''b'')])),
          website_connector = (\<lambda>ch url. Returns (Some [(''title'', ''w'')]))\<rparr>
     \<lparr>req_type = Some ''youtube'', req_channel = Some ''c1'', req_source_url = None, req_uid = None\<rparr>
   = (Returns (Some [(''title'', ''t'')]), [])
   \<and> try_body \<lparr>youtube_connector = (\<lambda>ch. if ch = Some ''broken'' then Raises Exception_raised
                                  else if ch = Some ''empty'' then Returns (Some [])
                                  else Returns (Some [(''title'', ''t'')])),
          podcast_connector = (\<lambda>ch. Returns (Some [(''title'', ''p'')])),
          bilibili_connector = (\<lambda>ch u. Returns (Some [(''title'', ''b'')])),
          website_connector = (\<lambda>ch url. Returns (Some [(''title'', ''w'')]))\<rparr>
     \<lparr>req_type = Some ''podcast'', req_channel = Some ''c1'', req_source_url = None, req_uid = None\<rparr>
   = (Returns (Some [(''title'', ''p'')]), [])
   \<and> try_body \<lparr>youtube_connector = (\<lambda>ch. if ch = Some ''broken'' then Raises Exception_raised
                                  else if ch = Some ''empty'' then Returns (Some [])
                                  else Returns (Some [(''title'', ''t'')])),
          podcast_connector = (\<lambda>ch. Returns (Some [(''title'', ''p'')])),
          bilibili_connector = (\<lambda>ch u. Returns (Some [(''title'', ''b'')])),
          website_connector = (\<lambda>ch url. Returns (Some [(''title'', ''w'')]))\<rparr>
     \<lparr>req_type = Some ''bilibili'', req_channel = Some ''c1'', req_source_url = None, req_uid = Some ''42''\<rparr>
   = (Returns (Some [(''title'', ''b'')]), [])
   \<and> try_body \<lparr>youtube_connector = (\<lambda>ch. if ch = Some ''broken'' then Raises Exception_raised
                                  else if ch = Some ''empty'' then Returns (Some [])
                                  else Returns (Some [(''title'', ''t'')])),
          podcast_connector = (\<lambda>ch. Returns (Some [(''title'', ''p'')])),
          bilibili_connector = (\<lambda>ch u. Returns (Some [(''title'', ''b'')])),
          website_connector = (\<lambda>ch url. Returns (Some [(''title'', ''w'')]))\<rparr>
     \<lparr>req_type = Some ''website'', req_channel = Some ''c1'', req_source_url = Some ''https://example.org'', req_uid = None\<rparr>
   = (Returns (Some [(''title'', ''w'')]), [])
   \<and> fetch_content_by_type \<lparr>youtube_connector = (\<lambda>ch. if ch = Some ''broken'' then Raises Exception_raised
                                  else if ch = Some ''empty'' then Returns (Some [])
                                  else Returns (Some [(''title'', ''t'')])),
          podcast_connector = (\<lambda>ch. Returns (Some [(''title'', ''p'')])),
          bilibili_connector = (\<lambda>ch u. Returns (Some [(''title'', ''b'')])),
          website_connector = (\<lambda>ch url. Returns (Some [(''title'', ''w'')]))\<rparr>
     \<lparr>req_type = Some ''short_video'', req_channel = Some ''c1'', req_source_url = None, req_uid = None\<rparr>
   = (None, [Fetching_content (Some ''short_video'') (Some ''c1''),
             Unsupported_content_type (Some ''short_video'')])"
proof -
  let ?c = "\<lparr>youtube_connector = (\<lambda>ch. if ch = Some ''broken'' then Raises Exception_raised
                                  else if ch = Some ''empty'' then Returns (Some [])
                                  else Returns (Some [(''title'', ''t'')])),
          podcast_connector = (\<lambda>ch. Returns (Some [(''title'', ''p'')])),
          bilibili_connector = (\<lambda>ch u. Returns (Some [(''title'', ''b'')])),
          website_connector = (\<lambda>ch url. Returns (Some [(''title'', ''w'')]))\<rparr>"
  show ?thesis
    using dispatch_on_platform_names[of "\<lparr>req_type = Some ''youtube'', req_channel = Some ''c1'', req_source_url = None, req_uid = None\<rparr>" ?c "[]"]
      dispatch_on_platform_names[of "\<lparr>req_type = Some ''podcast'', req_channel = Some ''c1'', req_source_url = None, req_uid = None\<rparr>" ?c "[]"]
      dispatch_on_platform_names[of "\<lparr>req_type = Some ''bilibili'', req_channel = Some ''c1'', req_source_url = None, req_uid = Some ''42''\<rparr>" ?c "[]"]
      dispatch_on_platform_names[of "\<lparr>req_type = Some ''website'', req_channel = Some ''c1'', req_source_url = Some ''https://example.org'', req_uid = None\<rparr>" ?c "''https://example.org''"]
      dispatch_on_platform_names[of "\<lparr>req_type = Some ''short_video'', req_channel = Some ''c1'', req_source_url = None, req_uid = None\<rparr>" ?c "[]"]
    by simp
qed

theorem video_type_is_unsupported_counterexample:
  "fetch_content_by_type \<lparr>youtube_connector = (\<lambda>ch. if ch = Some ''broken'' then Raises Exception_raised
                                  else if ch = Some ''empty'' then Returns (Some [])
                                  else Returns (Some [(''title'', ''t'')])),
          podcast_connector = (\<lambda>ch. Returns (Some [(''title'', ''p'')])),
          bilibili_connector = (\<lambda>ch u. Returns (Some [(''title'', ''b'')])),
          website_connector = (\<lambda>ch url. Returns (Some [(''title'', ''w'')]))\<rparr>
     \<lparr>req_type = Some ''video'', req_channel = Some ''c1'', req_source_url = None, req_uid = None\<rparr>
   = (None, [Fetching_content (Some ''video'') (Some ''c1''),
             Unsupported_content_type (Some ''video'')])"
  by (simp add: fetch_content_by_type_def try_body_def)

section \<open>Properties of the Classifier\<close>

subsection \<open>Durations\<close>

text \<open>
  What \<open>search_unit\<close> finds, said without the scan: there is no match exactly when no
  decimal digit of the string is directly followed by the unit letter.
\<close>

lemma search_unit_None_iff:
  assumes "\<not> is_decimal u"
  shows "search_unit u run s = None \<longleftrightarrow>
     \<not> ((run \<noteq> [] \<and> (\<exists>post. s = u # post))
        \<or> (\<exists>pre d post. s = pre @ d # u # post \<and> is_decimal d))"
proof -
  define E where "E t \<longleftrightarrow> (\<exists>pre d post. t = pre @ d # u # post \<and> is_decimal d)" for t
  have E_Nil: "\<not> E []" by (simp add: E_def)
  have E_Cons: "E (c # cs) \<longleftrightarrow> (is_decimal c \<and> (\<exists>post. cs = u # post)) \<or> E cs" for c cs
    unfolding E_def by (auto simp: Cons_eq_append_conv)
  have "search_unit u run s = None \<longleftrightarrow> \<not> ((run \<noteq> [] \<and> (\<exists>post. s = u # post)) \<or> E s)"
  proof (induction s arbitrary: run)
    case Nil
    show ?case by (simp add: E_Nil)
  next
    case (Cons c cs)
    show ?case
    proof (cases "is_decimal c")
      case True
      then have "c \<noteq> u" using assms by auto
      with True show ?thesis by (simp add: Cons.IH E_Cons)
    next
      case False
      then show ?thesis by (auto simp: Cons.IH E_Cons)
    qed
  qed
  then show ?thesis by (simp only: E_def)
qed

lemma unit_letters_not_decimal:
  "\<not> is_decimal CHR ''h''" "\<not> is_decimal CHR ''m''" "\<not> is_decimal CHR ''s''"
  by (simp_all add: is_decimal_def)

lemma no_unit_group_iff:
  "(search_unit CHR ''h'' [] s = None \<and> search_unit CHR ''m'' [] s = None
      \<and> search_unit CHR ''s'' [] s = None)
   \<longleftrightarrow> (\<forall>pre d u post. s = pre @ d # u # post \<and> is_decimal d
          \<longrightarrow> u \<noteq> CHR ''h'' \<and> u \<noteq> CHR ''m'' \<and> u \<noteq> CHR ''s'')"
  unfolding search_unit_None_iff[OF unit_letters_not_decimal(1)]
    search_unit_None_iff[OF unit_letters_not_decimal(2)]
    search_unit_None_iff[OF unit_letters_not_decimal(3)]
  by blast

lemma parse_duration_str_unparseable:
  assumes "\<not> isdigit s" and "search_unit CHR ''h'' [] s = None"
    and "search_unit CHR ''m'' [] s = None" and "search_unit CHR ''s'' [] s = None"
    and "int_of_str s = None"
  shows "parse_duration_str s =
           (Inr 0, if strip s = [] then [] else [Could_not_parse_duration s])"
  using assms by (simp add: parse_duration_str_def unit_seconds_def)

text \<open>
  C9, as amended. The four strings are read as stated and an integer is returned
  unchanged. A string for which \<open>str.isdigit\<close> is false, in which none of the three
  searches finds a unit group and which \<open>int\<close> cannot read, gives 0; the warning is
  logged when the string has a character that is not white space, and is not logged for
  the empty string and for a string of white space.
\<close>

theorem duration_parsing:
  "parse_duration_to_seconds (JStr ''1h 30m'') = (Inr 5400, [])
   \<and> parse_duration_to_seconds (JStr ''45s'') = (Inr 45, [])
   \<and> parse_duration_to_seconds (JStr ''90'') = (Inr 90, [])
   \<and> parse_duration_to_seconds (JStr ''2m 15s'') = (Inr 135, [])
   \<and> parse_duration_to_seconds (JInt n) = (Inr n, [])
   \<and> (\<not> isdigit s
        \<and> search_unit CHR ''h'' [] s = None \<and> search_unit CHR ''m'' [] s = None
        \<and> search_unit CHR ''s'' [] s = None
        \<and> int_of_str s = None
      \<longrightarrow> parse_duration_to_seconds (JStr s) =
            (Inr 0, if strip s = [] then [] else [Could_not_parse_duration s]))"
proof -
  note defs = parse_duration_str_def isdigit_def isdigit_char_def is_decimal_def unit_seconds_def
        digits_to_nat_def digit_value_def strip_def isspace_char_def int_strip_def int_space_char_def int_of_str_def
  have a: "parse_duration_to_seconds (JStr ''1h 30m'') = (Inr 5400, [])" by (simp add: defs)
  have b: "parse_duration_to_seconds (JStr ''45s'') = (Inr 45, [])" by (simp add: defs)
  have c: "parse_duration_to_seconds (JStr ''90'') = (Inr 90, [])" by (simp add: defs)
  have d: "parse_duration_to_seconds (JStr ''2m 15s'') = (Inr 135, [])" by (simp add: defs)
  have e: "parse_duration_to_seconds (JInt n) = (Inr n, [])" by simp
  have f: "\<not> isdigit s
        \<and> search_unit CHR ''h'' [] s = None \<and> search_unit CHR ''m'' [] s = None
        \<and> search_unit CHR ''s'' [] s = None
        \<and> int_of_str s = None
      \<longrightarrow> parse_duration_to_seconds (JStr s) =
            (Inr 0, if strip s = [] then [] else [Could_not_parse_duration s])"
    using parse_duration_str_unparseable[of s] by simp
  from a b c d e f show ?thesis by (intro conjI)
qed

theorem duration_parsing_witness:
  "parse_duration_to_seconds (JStr ''soon'') = (Inr 0, [Could_not_parse_duration ''soon''])
   \<and> parse_duration_to_seconds (JStr [CHR 0x1C, CHR ''5''])
       = (Inr 0, [Could_not_parse_duration [CHR 0x1C, CHR ''5'']])"
proof -
  note defs = isdigit_def isdigit_char_def is_decimal_def strip_def isspace_char_def
    int_strip_def int_space_char_def int_of_str_def
  have h: "\<not> isdigit ''soon''
        \<and> search_unit CHR ''h'' [] ''soon'' = None \<and> search_unit CHR ''m'' [] ''soon'' = None
        \<and> search_unit CHR ''s'' [] ''soon'' = None
        \<and> int_of_str ''soon'' = None"
    by (simp add: defs)
  have s: "strip ''soon'' \<noteq> []" by (simp add: defs)
  have "\<not> isdigit ''soon''
        \<and> search_unit CHR ''h'' [] ''soon'' = None \<and> search_unit CHR ''m'' [] ''soon'' = None
        \<and> search_unit CHR ''s'' [] ''soon'' = None
        \<and> int_of_str ''soon'' = None
      \<longrightarrow> parse_duration_to_seconds (JStr ''soon'') =
            (Inr 0, if strip ''soon'' = [] then [] else [Could_not_parse_duration ''soon''])"
    by (rule conjunct2[OF conjunct2[OF conjunct2[OF conjunct2[OF conjunct2[OF
          duration_parsing[of 0 "''soon''"]]]]]])
  with h s have a: "parse_duration_to_seconds (JStr ''soon'')
      = (Inr 0, [Could_not_parse_duration ''soon''])"
    by simp
  let ?t = "[CHR 0x1C, CHR ''5'']"
  have h': "\<not> isdigit ?t
        \<and> search_unit CHR ''h'' [] ?t = None \<and> search_unit CHR ''m'' [] ?t = None
        \<and> search_unit CHR ''s'' [] ?t = None
        \<and> int_of_str ?t = None"
    by (simp add: defs)
  have s': "strip ?t \<noteq> []" by (simp add: defs)
  have "\<not> isdigit ?t
        \<and> search_unit CHR ''h'' [] ?t = None \<and> search_unit CHR ''m'' [] ?t = None
        \<and> search_unit CHR ''s'' [] ?t = None
        \<and> int_of_str ?t = None
      \<longrightarrow> parse_duration_to_seconds (JStr ?t) =
            (Inr 0, if strip ?t = [] then [] else [Could_not_parse_duration ?t])"
    by (rule conjunct2[OF conjunct2[OF conjunct2[OF conjunct2[OF conjunct2[OF
          duration_parsing[of 0 ?t]]]]]])
  with h' s' have b: "parse_duration_to_seconds (JStr ?t) = (Inr 0, [Could_not_parse_duration ?t])"
    by simp
  from a b show ?thesis by (rule conjI)
qed

theorem blank_duration_logs_no_warning_counterexample:
  "parse_duration_to_seconds (JStr '''') = (Inr 0, [])
   \<and> parse_duration_to_seconds (JStr '' '') = (Inr 0, [])"
  by (simp add: parse_duration_str_def isdigit_def isdigit_char_def is_decimal_def unit_seconds_def
        digits_to_nat_def digit_value_def strip_def isspace_char_def int_strip_def int_space_char_def int_of_str_def)

text \<open>
  A separator before a number: \<open>str.strip\<close> drops it, so the string is not blank, but
  \<open>int\<close> does not read the string; the result is 0 and the warning is logged. White
  space that \<open>int\<close> skips leaves the number readable.
\<close>

lemma separator_is_not_skipped_by_int:
  "int_of_str [CHR 0x1C, CHR ''5''] = None
   \<and> strip [CHR 0x1C, CHR ''5''] = ''5''
   \<and> parse_duration_to_seconds (JStr [CHR 0x1C, CHR ''5''])
       = (Inr 0, [Could_not_parse_duration [CHR 0x1C, CHR ''5'']])
   \<and> parse_duration_to_seconds (JStr '' 90 '') = (Inr 90, [])
   \<and> parse_duration_to_seconds (JStr [CHR 0xA0, CHR ''7'', CHR 0x85]) = (Inr 7, [])"
  by (simp add: parse_duration_str_def isdigit_def isdigit_char_def is_decimal_def unit_seconds_def
        digits_to_nat_def digit_value_def strip_def isspace_char_def int_strip_def
        int_space_char_def int_of_str_def)

subsection \<open>A response that is not JSON\<close>

lemma parse_curation_response_None: "parse_curation_response JNull pd = (Inr None, [])"
  by (simp add: parse_curation_response_def)

text \<open>
  C6. When the text that the judgment service answers is not JSON,
  \<open>get_llm_curation\<close> logs the failure and the text and returns \<open>None\<close>,
  \<open>curate_content\<close> returns \<open>None\<close>, and \<open>main\<close> ends normally with the store as it
  found it: no curated-results file is written, and one that was there is not touched.
\<close>

theorem unparseable_response_writes_nothing:
  assumes "api_text_completion srv pd = Inr response" and "json_loads srv response = None"
  shows "get_llm_curation srv pd
           = (Inr JNull, [Failed_to_parse_response, Response_body response])
       \<and> curate_content srv pd
           = (Inr None, [Failed_to_parse_response, Response_body response])
       \<and> (processed_results_file st = Some pd \<longrightarrow>
            curate_main srv st =
              \<lparr>final_store = st,
               events = [Curating (length pd), Failed_to_parse_response, Response_body response,
                         Curation_failed],
               raised = None\<rparr>)"
proof -
  have g: "get_llm_curation srv pd
           = (Inr JNull, [Failed_to_parse_response, Response_body response])"
    using assms by (simp add: get_llm_curation_def)
  have c: "curate_content srv pd
           = (Inr None, [Failed_to_parse_response, Response_body response])"
    by (simp add: curate_content_def g parse_curation_response_None)
  have m: "processed_results_file st = Some pd \<longrightarrow>
            curate_main srv st =
              \<lparr>final_store = st,
               events = [Curating (length pd), Failed_to_parse_response, Response_body response,
                         Curation_failed],
               raised = None\<rparr>"
    by (simp add: curate_main_def c)
  from g c m show ?thesis by (intro conjI)
qed

theorem unparseable_response_witness:
  "curated_results_file (final_store (curate_main
      \<lparr>api_text_completion = (\<lambda>batch. Inr ''I cannot help with that.''),
       json_loads = (\<lambda>text. if text = ''{}'' then Some (JObj []) else None)\<rparr>
      \<lparr>processed_results_file = Some [[(''channel'', JStr ''c''), (''duration'', JStr ''5m'')]],
       curated_results_file = None\<rparr>)) = None
   \<and> events (curate_main
      \<lparr>api_text_completion = (\<lambda>batch. Inr ''I cannot help with that.''),
       json_loads = (\<lambda>text. if text = ''{}'' then Some (JObj []) else None)\<rparr>
      \<lparr>processed_results_file = Some [[(''channel'', JStr ''c''), (''duration'', JStr ''5m'')]],
       curated_results_file = None\<rparr>)
     = [Curating 1, Failed_to_parse_response, Response_body ''I cannot help with that.'',
        Curation_failed]"
proof -
  let ?srv = "\<lparr>api_text_completion = (\<lambda>batch :: item list. Inr ''I cannot help with that.''),
       json_loads = (\<lambda>text. if text = ''{}'' then Some (JObj []) else None)\<rparr>"
  let ?pd = "[[(''channel'', JStr ''c''), (''duration'', JStr ''5m'')]]"
  let ?st = "\<lparr>processed_results_file = Some ?pd, curated_results_file = None\<rparr>"
  have h1: "api_text_completion ?srv ?pd = Inr ''I cannot help with that.''" by simp
  have h2: "json_loads ?srv ''I cannot help with that.'' = None" by simp
  have h3: "processed_results_file ?st = Some ?pd" by simp
  from unparseable_response_writes_nothing[OF h1 h2, of ?st] h3
  have "curate_main ?srv ?st =
              \<lparr>final_store = ?st,
               events = [Curating (length ?pd), Failed_to_parse_response,
                         Response_body ''I cannot help with that.'', Curation_failed],
               raised = None\<rparr>"
    by blast
  then show ?thesis by simp
qed

subsection \<open>Verdicts\<close>

text \<open>
  When a verdict makes \<open>process_verdict\<close> raise: it is not a dict, or its \<open>idx\<close> is a
  value for which \<open>int\<close> raises something other than \<open>ValueError\<close>. The handler does not
  take these exceptions.
\<close>

lemma process_verdict_raises_iff:
  "(\<exists>e. process_verdict bucket pd v = Inl e) \<longleftrightarrow>
     (\<forall>kvs. v \<noteq> JObj kvs)
     \<or> (\<exists>idx. subscript v ''idx'' = Inr idx
               \<and> (py_int idx = Inl TypeError \<or> py_int idx = Inl OverflowError))"
proof (cases v)
  case (JObj kvs)
  show ?thesis
  proof (cases "map_of kvs ''idx''")
    case None
    with JObj show ?thesis by (simp add: process_verdict_def caught_def)
  next
    case (Some idx)
    show ?thesis
    proof (cases "py_int idx")
      case (Inl e)
      have "e = ValueError \<or> e = TypeError \<or> e = OverflowError"
        using Inl by (induction idx rule: py_int.induct) (auto split: option.splits)
      with JObj Some Inl show ?thesis
        by (auto simp: process_verdict_def caught_def)
    next
      case (Inr n)
      with JObj Some show ?thesis
        by (auto simp: process_verdict_def caught_def split: option.splits)
    qed
  qed
qed (simp_all add: process_verdict_def caught_def)

text \<open>
  C7 does not hold of the code. A verdict whose \<open>idx\<close> is \<open>null\<close> is not dropped:
  \<open>int(None)\<close> raises \<open>TypeError\<close>, which the handler for \<open>(ValueError, KeyError)\<close> lets
  through, so \<open>parse_curation_response\<close> raises and the verdict after it, which is
  well formed, is never processed.
\<close>

theorem null_idx_aborts_parse:
  "parse_curation_response
     (JObj [(''must_see'', JArr [JObj [(''idx'', JNull), (''reason'', JStr ''r'')],
                                 JObj [(''idx'', JInt 0), (''reason'', JStr ''good'')]]),
            (''might_be_interested'', JArr []),
            (''you_may_skip'', JArr [])])
     [[(''channel'', JStr ''c''), (''duration'', JStr ''5m'')]]
   = (Inl TypeError, [])"
  by (simp add: parse_curation_response_def bucket_items_def process_verdict_def caught_def)

text \<open>
  The other verdicts that the claim names are dropped with a warning, and the verdict
  after them is processed: an \<open>idx\<close> that is a string \<open>int\<close> cannot read, an index out
  of range, and a verdict without \<open>reason\<close>.
\<close>

lemma other_bad_verdicts_are_dropped:
  "parse_curation_response
     (JObj [(''must_see'', JArr [JObj [(''idx'', JStr ''x''), (''reason'', JStr ''r'')],
                                 JObj [(''idx'', JInt 7), (''reason'', JStr ''r'')],
                                 JObj [(''idx'', JInt (- 1)), (''reason'', JStr ''r'')],
                                 JObj [(''idx'', JInt 0)],
                                 JObj [(''idx'', JStr ''0''), (''reason'', JStr ''good'')]]),
            (''you_may_skip'', JArr [])])
     [[(''channel'', JStr ''c''), (''duration'', JStr ''5m'')]]
   = (Inr (Some \<lparr>must_see = [[(''channel'', JStr ''c''), (''duration'', JStr ''5m''),
                                (''reason'', JStr ''good'')]],
                 might_be_interested = [], you_may_skip = []\<rparr>),
      [Error_processing_item ''must_see'' ValueError, Index_out_of_range ''must_see'' 7,
       Index_out_of_range ''must_see'' (- 1), Error_processing_item ''must_see'' KeyError])"
  by (simp add: parse_curation_response_def bucket_items_def process_verdict_def caught_def
       int_of_str_def int_strip_def int_space_char_def is_decimal_def digit_value_def)

end
